theory Spec2Isabelle
  imports Complex_Main
begin

section \<open>JavaScript numbers\<close>

text \<open>
  The composable computes with the JavaScript type \<open>number\<close>. A number is modelled as a
  real extended with the two infinities and NaN, so that a division by a zero item height
  is a value of the model, as it is in the program, and not the \<open>x / 0 = 0\<close> of HOL.
  The operators of this section are exact on finite values; the rounding of binary64 is a
  separate step, added to each of them in the section on binary64. The sign of zero is
  outside the model (every zero is \<open>+0\<close>).
\<close>

datatype number = Fin real | PInf | NInf | NaN

fun is_neg :: "number \<Rightarrow> bool" where
  "is_neg (Fin x) = (x < 0)"
| "is_neg NInf = True"
| "is_neg PInf = False"
| "is_neg NaN = False"

fun num_neg :: "number \<Rightarrow> number" where
  "num_neg (Fin x) = Fin (- x)"
| "num_neg PInf = NInf"
| "num_neg NInf = PInf"
| "num_neg NaN = NaN"

text \<open>The operator \<open>+\<close>.\<close>

fun num_add :: "number \<Rightarrow> number \<Rightarrow> number" where
  "num_add NaN y = NaN"
| "num_add x NaN = NaN"
| "num_add (Fin a) (Fin b) = Fin (a + b)"
| "num_add PInf NInf = NaN"
| "num_add NInf PInf = NaN"
| "num_add PInf y = PInf"
| "num_add x PInf = PInf"
| "num_add NInf y = NInf"
| "num_add x NInf = NInf"

text \<open>The operator \<open>-\<close>.\<close>

definition num_sub :: "number \<Rightarrow> number \<Rightarrow> number" where
  "num_sub x y = num_add x (num_neg y)"

text \<open>The operator \<open>*\<close>: an infinity times zero is NaN, otherwise the signs decide.\<close>

fun num_mul :: "number \<Rightarrow> number \<Rightarrow> number" where
  "num_mul NaN y = NaN"
| "num_mul x NaN = NaN"
| "num_mul (Fin a) (Fin b) = Fin (a * b)"
| "num_mul x y =
     (if x = Fin 0 \<or> y = Fin 0 then NaN
      else if is_neg x = is_neg y then PInf else NInf)"

text \<open>
  The operator \<open>/\<close>: a finite value over zero is an infinity of the sign of the dividend,
  zero over zero is NaN, a finite value over an infinity is zero.
\<close>

fun num_div :: "number \<Rightarrow> number \<Rightarrow> number" where
  "num_div NaN y = NaN"
| "num_div x NaN = NaN"
| "num_div (Fin a) (Fin b) =
     (if b = 0 then (if a = 0 then NaN else if 0 < a then PInf else NInf)
      else Fin (a / b))"
| "num_div (Fin a) PInf = Fin 0"
| "num_div (Fin a) NInf = Fin 0"
| "num_div PInf (Fin b) = (if b < 0 then NInf else PInf)"
| "num_div NInf (Fin b) = (if b < 0 then PInf else NInf)"
| "num_div x y = NaN"

text \<open>The comparison \<open><=\<close>: false as soon as one side is NaN.\<close>

fun num_le :: "number \<Rightarrow> number \<Rightarrow> bool" where
  "num_le NaN y = False"
| "num_le x NaN = False"
| "num_le NInf y = True"
| "num_le x PInf = True"
| "num_le (Fin a) (Fin b) = (a \<le> b)"
| "num_le x y = False"

text \<open>\<open>Math.ceil\<close> and \<open>Math.floor\<close> leave the infinities and NaN as they are.\<close>

fun Math_ceil :: "number \<Rightarrow> number" where
  "Math_ceil (Fin x) = Fin (of_int \<lceil>x\<rceil>)"
| "Math_ceil x = x"

fun Math_floor :: "number \<Rightarrow> number" where
  "Math_floor (Fin x) = Fin (of_int \<lfloor>x\<rfloor>)"
| "Math_floor x = x"

text \<open>\<open>Math.max\<close> and \<open>Math.min\<close> of two arguments: NaN as soon as one argument is.\<close>

fun Math_max :: "number \<Rightarrow> number \<Rightarrow> number" where
  "Math_max NaN y = NaN"
| "Math_max x NaN = NaN"
| "Math_max x y = (if num_le x y then y else x)"

fun Math_min :: "number \<Rightarrow> number \<Rightarrow> number" where
  "Math_min NaN y = NaN"
| "Math_min x NaN = NaN"
| "Math_min x y = (if num_le x y then x else y)"

section \<open>\<open>Array.prototype.slice\<close>\<close>

text \<open>
  \<open>slice(start, end)\<close> first turns each bound into an integer or an infinity (NaN becomes
  0, a fraction is cut towards zero), then into a position of the array: a negative bound
  counts from the end, and both are clamped to \<open>0 .. length\<close>. It copies the elements
  from the first position up to the second, none when the second is not beyond the first.
  It never throws.
\<close>

definition trunc :: "real \<Rightarrow> int" where
  "trunc x = (if x < 0 then \<lceil>x\<rceil> else \<lfloor>x\<rfloor>)"

fun relative_index :: "nat \<Rightarrow> number \<Rightarrow> nat" where
  "relative_index len NaN = 0"
| "relative_index len NInf = 0"
| "relative_index len PInf = len"
| "relative_index len (Fin x) =
     (if trunc x < 0 then nat (max (int len + trunc x) 0) else min (nat (trunc x)) len)"

definition slice :: "'a list \<Rightarrow> number \<Rightarrow> number \<Rightarrow> 'a list" where
  "slice xs start fin =
     (let k = relative_index (length xs) start;
          final = relative_index (length xs) fin
      in take (final - k) (drop k xs))"

section \<open>The composable \<open>useVirtualScroller\<close>\<close>

text \<open>
  The scroll surface is the element held by \<open>containerRef\<close>, of which the composable reads
  \<open>scrollTop\<close> and \<open>clientHeight\<close> and writes \<open>scrollTop\<close>. It is a plain object, as in the
  repository's test: what a browser does with an assigned \<open>scrollTop\<close> (clamping it to
  the scrollable range) belongs to the surface, not to the composable.
\<close>

record element =
  elem_scrollTop :: number
  clientHeight :: number

text \<open>
  The state of one instance: the four options (\<open>containerRef\<close> holds an element or null)
  and the two refs \<open>scrollTop\<close> and \<open>containerHeight\<close>.
\<close>

record 'a scroller =
  items :: "'a list"
  containerRef :: "element option"
  itemHeight :: number
  overscan :: number
  scrollTop :: number
  containerHeight :: number

text \<open>
  Construction. The option \<open>overscan\<close> may be absent and is then 2; both refs start at 0.
  The result is an option so that a rejected configuration would be \<open>None\<close>; the body of
  the source has no \<open>throw\<close> and evaluates no expression that throws (the computed values
  are evaluated on reading only), so every configuration yields an instance.
\<close>

definition useVirtualScroller ::
  "'a list \<Rightarrow> element option \<Rightarrow> number \<Rightarrow> number option \<Rightarrow> 'a scroller option" where
  "useVirtualScroller its cref h ov =
     Some \<lparr>items = its, containerRef = cref, itemHeight = h,
           overscan = (case ov of None \<Rightarrow> Fin 2 | Some v \<Rightarrow> v),
           scrollTop = Fin 0, containerHeight = Fin 0\<rparr>"

text \<open>The computed values, each a function of the state it reads.\<close>

definition visibleCount :: "'a scroller \<Rightarrow> number" where
  "visibleCount s = Math_ceil (num_div (containerHeight s) (itemHeight s))"

definition startIndex :: "'a scroller \<Rightarrow> number" where
  "startIndex s =
     Math_max (Fin 0) (num_sub (Math_floor (num_div (scrollTop s) (itemHeight s))) (overscan s))"

definition endIndex :: "'a scroller \<Rightarrow> number" where
  "endIndex s =
     Math_min (Fin (real (length (items s))))
       (num_add (num_add (startIndex s) (visibleCount s)) (num_mul (overscan s) (Fin 2)))"

definition visibleItems :: "'a scroller \<Rightarrow> 'a list" where
  "visibleItems s = slice (items s) (startIndex s) (endIndex s)"

definition paddingTop :: "'a scroller \<Rightarrow> number" where
  "paddingTop s = num_mul (startIndex s) (itemHeight s)"

definition paddingBottom :: "'a scroller \<Rightarrow> number" where
  "paddingBottom s = num_mul (num_sub (Fin (real (length (items s)))) (endIndex s)) (itemHeight s)"

text \<open>The two handlers copy a measure of the surface into its ref, when there is a surface.\<close>

definition onScroll :: "'a scroller \<Rightarrow> 'a scroller" where
  "onScroll s =
     (case containerRef s of
        Some el \<Rightarrow> s\<lparr>scrollTop := elem_scrollTop el\<rparr>
      | None \<Rightarrow> s)"

definition onResize :: "'a scroller \<Rightarrow> 'a scroller" where
  "onResize s =
     (case containerRef s of
        Some el \<Rightarrow> s\<lparr>containerHeight := clientHeight el\<rparr>
      | None \<Rightarrow> s)"

text \<open>
  The mounted hook samples the viewport size as \<open>onResize\<close> does, and registers the two
  handlers as listeners. The registrations (here, in the unmounted hook and in the watcher
  of \<open>containerRef\<close>) decide when a handler runs, not what it computes, and are not part
  of the state.
\<close>

definition onMounted :: "'a scroller \<Rightarrow> 'a scroller" where
  "onMounted s =
     (case containerRef s of
        Some el \<Rightarrow> s\<lparr>containerHeight := clientHeight el\<rparr>
      | None \<Rightarrow> s)"

text \<open>\<open>scrollToIndex\<close> assigns the surface's \<open>scrollTop\<close>, when there is a surface.\<close>

definition scrollToIndex :: "number \<Rightarrow> 'a scroller \<Rightarrow> 'a scroller" where
  "scrollToIndex index s =
     (case containerRef s of
        Some el \<Rightarrow> s\<lparr>containerRef := Some (el\<lparr>elem_scrollTop := num_mul index (itemHeight s)\<rparr>)\<rparr>
      | None \<Rightarrow> s)"

text \<open>
  A finite state, named by its five measures: the items, the item height, the overscan,
  the scroll offset and the viewport size. The surface it is attached to shows the same
  offset and size, so it is the state of an instance constructed on that surface once it
  is mounted and a scroll event has been handled (lemma \<open>viewing_reached\<close>).
\<close>

definition viewing :: "'a list \<Rightarrow> real \<Rightarrow> real \<Rightarrow> real \<Rightarrow> real \<Rightarrow> 'a scroller" where
  "viewing its h ov t c =
     \<lparr>items = its,
      containerRef = Some \<lparr>elem_scrollTop = Fin t, clientHeight = Fin c\<rparr>,
      itemHeight = Fin h, overscan = Fin ov, scrollTop = Fin t, containerHeight = Fin c\<rparr>"

section \<open>Binary64\<close>

text \<open>
  The engine evaluates every arithmetic operator in binary64: the result is the exact
  result rounded to the nearest number with a significand of 53 bits, to the even one of
  two that are equally near. The exponent is at least -1022, so that the numbers below
  \<open>2 ^ (- 1022)\<close> are spaced \<open>2 ^ (- 1074)\<close> apart, and a rounded result of magnitude
  \<open>2 ^ 1024\<close> or more is an infinity. \<open>rne\<close> rounds a real to the nearest integer, to the
  even one at a tie. A decimal literal of the source, such as \<open>33.3\<close>, denotes the
  rounding of its value.
\<close>

definition rne :: "real \<Rightarrow> int" where
  "rne y =
     (let f = \<lfloor>y\<rfloor>; d = y - of_int f
      in if d < 1 / 2 then f
         else if 1 / 2 < d then f + 1
         else if even f then f else f + 1)"

definition binary64 :: "real \<Rightarrow> number" where
  "binary64 x =
     (if x = 0 then Fin 0
      else
        let e = max \<lfloor>log 2 \<bar>x\<bar>\<rfloor> (- 1022);
            u = 2 powi (e - 52);
            r = of_int (rne (x / u)) * u
        in if 2 ^ 1024 \<le> \<bar>r\<bar> then (if x < 0 then NInf else PInf) else Fin r)"

fun round64 :: "number \<Rightarrow> number" where
  "round64 (Fin x) = binary64 x"
| "round64 x = x"

text \<open>The four operators with their rounding; infinities and NaN are left as they are.\<close>

definition add64 :: "number \<Rightarrow> number \<Rightarrow> number" where
  "add64 x y = round64 (num_add x y)"

definition sub64 :: "number \<Rightarrow> number \<Rightarrow> number" where
  "sub64 x y = round64 (num_sub x y)"

definition mul64 :: "number \<Rightarrow> number \<Rightarrow> number" where
  "mul64 x y = round64 (num_mul x y)"

definition div64 :: "number \<Rightarrow> number \<Rightarrow> number" where
  "div64 x y = round64 (num_div x y)"

text \<open>
  The computed values of the source, with every operator rounded. \<open>Math.ceil\<close>,
  \<open>Math.floor\<close>, \<open>Math.max\<close> and \<open>Math.min\<close> return one of their arguments or an integer
  next to it, and do not round. The statements on the bounds and the order of the window
  are about the exact values; the statement on the total height, an equation between
  results of arithmetic, is about the rounded ones.
\<close>

definition visibleCount64 :: "'a scroller \<Rightarrow> number" where
  "visibleCount64 s = Math_ceil (div64 (containerHeight s) (itemHeight s))"

definition startIndex64 :: "'a scroller \<Rightarrow> number" where
  "startIndex64 s =
     Math_max (Fin 0) (sub64 (Math_floor (div64 (scrollTop s) (itemHeight s))) (overscan s))"

definition endIndex64 :: "'a scroller \<Rightarrow> number" where
  "endIndex64 s =
     Math_min (Fin (real (length (items s))))
       (add64 (add64 (startIndex64 s) (visibleCount64 s)) (mul64 (overscan s) (Fin 2)))"

definition paddingTop64 :: "'a scroller \<Rightarrow> number" where
  "paddingTop64 s = mul64 (startIndex64 s) (itemHeight s)"

definition paddingBottom64 :: "'a scroller \<Rightarrow> number" where
  "paddingBottom64 s =
     mul64 (sub64 (Fin (real (length (items s)))) (endIndex64 s)) (itemHeight s)"

section \<open>The window on finite inputs\<close>

text \<open>
  On a finite state with a positive item height every computed value is finite, and is the
  arithmetic expression of the source.
\<close>

lemma visibleCount_Fin:
  assumes "itemHeight s = Fin h" and "h \<noteq> 0" and "containerHeight s = Fin c"
  shows "visibleCount s = Fin (of_int \<lceil>c / h\<rceil>)"
  using assms by (simp add: visibleCount_def)

lemma startIndex_Fin:
  assumes "itemHeight s = Fin h" and "h \<noteq> 0" and "scrollTop s = Fin t" and "overscan s = Fin ov"
  shows "startIndex s = Fin (max 0 (of_int \<lfloor>t / h\<rfloor> - ov))"
  using assms by (simp add: startIndex_def num_sub_def max_def)

lemma endIndex_Fin:
  assumes "itemHeight s = Fin h" and "h \<noteq> 0" and "scrollTop s = Fin t" and "overscan s = Fin ov"
    and "containerHeight s = Fin c"
  shows "endIndex s =
    Fin (min (real (length (items s)))
          (max 0 (of_int \<lfloor>t / h\<rfloor> - ov) + of_int \<lceil>c / h\<rceil> + ov * 2))"
  using assms
  by (simp add: endIndex_def startIndex_Fin [OF assms(1-4)] visibleCount_Fin [OF assms(1,2,5)] min_def)

lemma viewing_reached:
  "map_option (onScroll \<circ> onMounted)
     (useVirtualScroller its (Some \<lparr>elem_scrollTop = Fin t, clientHeight = Fin c\<rparr>)
        (Fin h) (Some (Fin ov)))
   = Some (viewing its h ov t c)"
  by (simp add: useVirtualScroller_def onScroll_def onMounted_def viewing_def)

lemma viewing_simps [simp]:
  "items (viewing its h ov t c) = its"
  "itemHeight (viewing its h ov t c) = Fin h"
  "overscan (viewing its h ov t c) = Fin ov"
  "scrollTop (viewing its h ov t c) = Fin t"
  "containerHeight (viewing its h ov t c) = Fin c"
  "containerRef (viewing its h ov t c) = Some \<lparr>elem_scrollTop = Fin t, clientHeight = Fin c\<rparr>"
  by (simp_all add: viewing_def)

text \<open>What \<open>slice\<close> returns when the start is at or beyond the end of the array.\<close>

lemma relative_index_le: "relative_index len x \<le> len"
  by (cases x) auto

lemma relative_index_past:
  assumes "real len \<le> a"
  shows "relative_index len (Fin a) = len"
proof -
  have "int len \<le> \<lfloor>a\<rfloor>" using assms by (simp add: le_floor_iff)
  moreover have "\<not> a < 0" using assms by (metis of_nat_0_le_iff order_trans not_less)
  ultimately show ?thesis by (simp add: trunc_def)
qed

lemma slice_past_end:
  assumes "real (length xs) \<le> a"
  shows "slice xs (Fin a) e = []"
  using relative_index_le [of "length xs" e]
  by (simp add: slice_def relative_index_past [OF assms] Let_def del: relative_index.simps)


text \<open>A fresh instance (both refs at 0) whose item height is zero or negative.\<close>

lemma fresh_negative_height:
  assumes "itemHeight s = Fin x" and "x < 0" and "overscan s = Fin v" and "0 \<le> v"
    and "scrollTop s = Fin 0" and "containerHeight s = Fin 0"
  shows "paddingBottom s
           = Fin ((real (length (items s)) - min (real (length (items s))) (v * 2)) * x)
         \<and> num_le (paddingBottom s) (Fin 0)"
proof -
  have st: "startIndex s = Fin 0"
    using assms by (simp add: startIndex_def num_sub_def)
  have vc: "visibleCount s = Fin 0"
    using assms by (simp add: visibleCount_def)
  have en: "endIndex s = Fin (min (real (length (items s))) (v * 2))"
    by (simp add: endIndex_def st vc assms(3) min_def)
  have pb: "paddingBottom s
      = Fin ((real (length (items s)) - min (real (length (items s))) (v * 2)) * x)"
    by (simp add: paddingBottom_def en num_sub_def assms(1))
  have "0 \<le> real (length (items s)) - min (real (length (items s))) (v * 2)" by linarith
  then have "(real (length (items s)) - min (real (length (items s))) (v * 2)) * x \<le> 0"
    using assms(2) by (simp add: mult_nonneg_nonpos)
  then have "num_le (paddingBottom s) (Fin 0)" by (simp only: pb num_le.simps)
  with pb show ?thesis by blast
qed

lemma fresh_zero_height:
  assumes "itemHeight s = Fin 0" and "scrollTop s = Fin 0" and "containerHeight s = Fin 0"
  shows "visibleCount s = NaN \<and> startIndex s = NaN \<and> endIndex s = NaN
            \<and> paddingTop s = NaN \<and> paddingBottom s = NaN \<and> visibleItems s = []"
  using assms
  by (simp add: visibleCount_def startIndex_def endIndex_def paddingTop_def paddingBottom_def
      visibleItems_def num_sub_def slice_def)

section \<open>Rounding to binary64\<close>

text \<open>
  The rounding of a number whose binary exponent is known, the numbers it leaves as they
  are (the integers up to \<open>2 ^ 52\<close>), and the bounds it keeps.
\<close>

lemma rne_of_int [simp]: "rne (of_int k) = k"
  by (simp add: rne_def)

lemma rne_cases: "rne y = \<lfloor>y\<rfloor> \<or> (rne y = \<lfloor>y\<rfloor> + 1 \<and> of_int \<lfloor>y\<rfloor> < y)"
  by (auto simp: rne_def Let_def)

lemma rne_le: "y \<le> of_int m \<Longrightarrow> rne y \<le> m"
proof -
  assume le: "y \<le> of_int m"
  then have f: "\<lfloor>y\<rfloor> \<le> m" by (simp add: floor_le_iff)
  show ?thesis
  proof (cases "rne y = \<lfloor>y\<rfloor>")
    case True then show ?thesis using f by simp
  next
    case False
    with rne_cases [of y] have r: "rne y = \<lfloor>y\<rfloor> + 1" and lt: "of_int \<lfloor>y\<rfloor> < y" by auto
    from lt le have "of_int \<lfloor>y\<rfloor> < (of_int m :: real)" by linarith
    then have "\<lfloor>y\<rfloor> < m" by simp
    then show ?thesis using r by simp
  qed
qed

lemma rne_ge: "of_int m \<le> y \<Longrightarrow> m \<le> rne y"
proof -
  assume "of_int m \<le> y"
  then have "m \<le> \<lfloor>y\<rfloor>" by (simp add: le_floor_iff)
  then show ?thesis using rne_cases [of y] by auto
qed

lemma floor_log2_eq:
  assumes "2 powi e \<le> y" and "y < 2 powi (e + 1)"
  shows "\<lfloor>log 2 y\<rfloor> = e"
proof -
  have "0 < (2::real) powi e" by simp
  then have y: "0 < y" using assms(1) by linarith
  have a: "2 powr of_int e = (2::real) powi e"
    by (rule powr_real_of_int') simp_all
  have b: "2 powr of_int (e + 1) = (2::real) powi (e + 1)"
    by (rule powr_real_of_int') simp_all
  have "\<lfloor>log 2 y\<rfloor> = e \<longleftrightarrow> 2 powr of_int e \<le> y \<and> y < 2 powr of_int (e + 1)"
    by (rule floor_log_eq_powr_iff) (use y in simp_all)
  then show ?thesis unfolding a b using assms by blast
qed

lemma binary64_eval:
  assumes lo: "2 powi e \<le> \<bar>x\<bar>" and hi: "\<bar>x\<bar> < 2 powi (e + 1)"
    and e1: "- 1022 \<le> e" and e2: "e \<le> 1022"
  shows "binary64 x = Fin (of_int (rne (x / 2 powi (e - 52))) * 2 powi (e - 52))"
proof -
  have "0 < (2::real) powi e" by simp
  then have "0 < \<bar>x\<bar>" using lo by linarith
  then have x0: "x \<noteq> 0" by simp
  have fl: "\<lfloor>log 2 \<bar>x\<bar>\<rfloor> = e" by (rule floor_log2_eq [OF lo hi])
  define u :: real where "u = 2 powi (e - 52)"
  have u0: "0 < u" by (simp add: u_def)
  have top: "2 powi (e + 1) = of_int (2 ^ 53) * u"
    unfolding u_def by (simp add: power_int_diff power_int_add)
  have "\<bar>x\<bar> / u \<le> of_int (2 ^ 53)"
    using hi u0 unfolding top by (simp add: pos_divide_le_eq)
  moreover have "\<bar>x / u\<bar> = \<bar>x\<bar> / u" using u0 by (simp add: abs_divide)
  ultimately have "\<bar>x / u\<bar> \<le> of_int (2 ^ 53)" by (simp only:)
  then have up: "x / u \<le> of_int (2 ^ 53)" and dn: "of_int (- (2 ^ 53)) \<le> x / u"
    by (simp_all only: abs_le_iff of_int_minus) linarith+
  have r1: "rne (x / u) \<le> 2 ^ 53" by (rule rne_le [OF up])
  have r2: "- (2 ^ 53) \<le> rne (x / u)" by (rule rne_ge [OF dn])
  have "\<bar>of_int (rne (x / u)) * u\<bar> \<le> of_int (2 ^ 53) * u"
    using r1 r2 u0 by (simp add: abs_mult abs_le_iff)
  also have "\<dots> = 2 powi (e + 1)" by (simp add: top)
  also have "\<dots> \<le> 2 powi 1023" using e2 by (intro power_int_increasing) simp_all
  also have "\<dots> < (2::real) ^ 1024" by simp
  finally have small: "\<not> 2 ^ 1024 \<le> \<bar>of_int (rne (x / u)) * u\<bar>" by simp
  show ?thesis
    using x0 e1 small by (simp add: binary64_def fl Let_def u_def max_def)
qed

lemma log2_le_nat:
  assumes "0 < x" and "x \<le> 2 ^ m"
  shows "\<lfloor>log 2 x\<rfloor> \<le> int m"
proof -
  have "log 2 x \<le> log 2 (2 ^ m)"
    using assms by (subst log_le_cancel_iff) simp_all
  also have "\<dots> = real m" by (simp add: log_nat_power)
  finally have "log 2 x \<le> of_int (int m)" by simp
  then show ?thesis by (simp only: floor_le_iff)
qed

lemma binary64_of_int:
  assumes "\<bar>k\<bar> \<le> 2 ^ 52"
  shows "binary64 (of_int k) = Fin (of_int k)"
proof (cases "k = 0")
  case True
  then show ?thesis by (simp add: binary64_def)
next
  case False
  define x :: real where "x = of_int k"
  define e where "e = \<lfloor>log 2 \<bar>x\<bar>\<rfloor>"
  have x1: "1 \<le> \<bar>x\<bar>"
  proof -
    have "1 \<le> \<bar>k\<bar>" using False by linarith
    then have "(1::real) \<le> of_int \<bar>k\<bar>" by linarith
    then show ?thesis by (simp add: x_def)
  qed
  have x2: "\<bar>x\<bar> \<le> 2 ^ 52"
  proof -
    have "(of_int \<bar>k\<bar> :: real) \<le> of_int (2 ^ 52)" using assms by (simp only: of_int_le_iff)
    then show ?thesis by (simp add: x_def)
  qed
  have a: "2 powr of_int e = (2::real) powi e"
    by (rule powr_real_of_int') simp_all
  have b: "2 powr of_int (e + 1) = (2::real) powi (e + 1)"
    by (rule powr_real_of_int') simp_all
  have "\<lfloor>log 2 \<bar>x\<bar>\<rfloor> = e \<longleftrightarrow> 2 powr of_int e \<le> \<bar>x\<bar> \<and> \<bar>x\<bar> < 2 powr of_int (e + 1)"
    by (rule floor_log_eq_powr_iff) (use x1 in simp_all)
  then have lo: "2 powi e \<le> \<bar>x\<bar>" and hi: "\<bar>x\<bar> < 2 powi (e + 1)"
    unfolding a b by (simp_all add: e_def)
  have e0: "0 \<le> e"
  proof -
    have "0 \<le> log 2 \<bar>x\<bar>" using x1 by simp
    then show ?thesis by (simp add: e_def)
  qed
  have e52: "e \<le> 52"
  proof -
    have "0 < \<bar>x\<bar>" using x1 by linarith
    from log2_le_nat [OF this x2] show ?thesis by (simp add: e_def)
  qed
  have ev: "binary64 x = Fin (of_int (rne (x / 2 powi (e - 52))) * 2 powi (e - 52))"
    by (rule binary64_eval [OF lo hi]) (use e0 e52 in simp_all)
  have u: "(2::real) powi (e - 52) = 1 / of_int (2 ^ nat (52 - e))"
  proof -
    have "e - 52 = - int (nat (52 - e))" using e52 by simp
    then have "(2::real) powi (e - 52) = 2 powi (- int (nat (52 - e)))" by simp
    also have "\<dots> = 1 / 2 ^ nat (52 - e)"
      by (simp only: power_int_minus power_int_of_nat inverse_eq_divide)
    finally show ?thesis by simp
  qed
  have q: "x / 2 powi (e - 52) = of_int (k * 2 ^ nat (52 - e))"
    by (simp add: u x_def)
  have "of_int (rne (x / 2 powi (e - 52))) * 2 powi (e - 52) = x"
    unfolding q rne_of_int by (simp add: u x_def)
  with ev show ?thesis by (simp add: x_def)
qed

lemma binary64_bounds:
  assumes "0 \<le> x" and "x \<le> 2 ^ m" and "m \<le> 1023"
  shows "\<exists>r. binary64 x = Fin r \<and> 0 \<le> r \<and> r \<le> 2 ^ m"
proof (cases "x = 0")
  case True
  then show ?thesis by (simp add: binary64_def)
next
  case False
  then have x0: "0 < x" using assms(1) by simp
  define e where "e = max \<lfloor>log 2 \<bar>x\<bar>\<rfloor> (- 1022)"
  define u :: real where "u = 2 powi (e - 52)"
  define r where "r = of_int (rne (x / u)) * u"
  have u0: "0 < u" by (simp add: u_def)
  have "\<lfloor>log 2 x\<rfloor> \<le> int m" by (rule log2_le_nat [OF x0 assms(2)])
  then have em: "e \<le> int m" using x0 by (simp add: e_def)
  have top: "(2::real) ^ m = of_int (2 ^ nat (int m - e + 52)) * u"
  proof -
    have "int m = int (nat (int m - e + 52)) + (e - 52)" using em by simp
    then have "(2::real) powi (int m) = 2 powi (int (nat (int m - e + 52)) + (e - 52))" by simp
    also have "\<dots> = 2 powi (int (nat (int m - e + 52))) * 2 powi (e - 52)"
      by (rule power_int_add) simp
    also have "\<dots> = 2 ^ nat (int m - e + 52) * 2 powi (e - 52)"
      by (simp only: power_int_of_nat)
    finally show ?thesis by (simp add: u_def)
  qed
  have "x / u \<le> of_int (2 ^ nat (int m - e + 52))"
    using assms(2) u0 unfolding top by (simp add: pos_divide_le_eq)
  then have r1: "rne (x / u) \<le> 2 ^ nat (int m - e + 52)" by (rule rne_le)
  have "of_int 0 \<le> x / u" using x0 u0 by simp
  then have r2: "0 \<le> rne (x / u)" by (rule rne_ge)
  have rlo: "0 \<le> r" using r2 u0 by (simp add: r_def)
  have "r \<le> of_int (2 ^ nat (int m - e + 52)) * u"
    unfolding r_def using r1 u0 by (simp only: mult_le_cancel_right_pos of_int_le_iff)
  then have rhi: "r \<le> 2 ^ m" by (simp only: top)
  have "(2::real) ^ m \<le> 2 ^ 1023" by (rule power_increasing) (use assms(3) in simp_all)
  also have "\<dots> < (2::real) ^ 1024" by simp
  finally have "r < 2 ^ 1024" using rhi by linarith
  then have "\<not> 2 ^ 1024 \<le> \<bar>r\<bar>" using rlo by simp
  then have "binary64 x = Fin r"
    using False by (simp add: binary64_def Let_def e_def [symmetric] u_def [symmetric] r_def [symmetric])
  with rlo rhi show ?thesis by blast
qed

text \<open>On integers the rounded operators are exact, as long as the result is an integer up to \<open>2 ^ 52\<close>.\<close>

lemma add64_int:
  "\<bar>a + b\<bar> \<le> 2 ^ 52 \<Longrightarrow> add64 (Fin (of_int a)) (Fin (of_int b)) = Fin (of_int (a + b))"
  using binary64_of_int [of "a + b"] by (simp add: add64_def)

lemma sub64_int:
  "\<bar>a - b\<bar> \<le> 2 ^ 52 \<Longrightarrow> sub64 (Fin (of_int a)) (Fin (of_int b)) = Fin (of_int (a - b))"
  using binary64_of_int [of "a - b"] by (simp add: sub64_def num_sub_def)

lemma mul64_int:
  "\<bar>a * b\<bar> \<le> 2 ^ 52 \<Longrightarrow> mul64 (Fin (of_int a)) (Fin (of_int b)) = Fin (of_int (a * b))"
  using binary64_of_int [of "a * b"] by (simp add: mul64_def)

lemma div64_bounds:
  assumes "0 \<le> x" and "x \<le> 2 ^ 26" and "0 < d"
  shows "\<exists>q. div64 (Fin x) (Fin (of_int d)) = Fin q \<and> 0 \<le> q \<and> q \<le> 2 ^ 26"
proof -
  have d1: "(1::real) \<le> of_int d" using assms(3) by linarith
  have "x / of_int d \<le> x / 1"
    using assms(1) d1 by (intro divide_left_mono) simp_all
  then have hi: "x / of_int d \<le> 2 ^ 26" using assms(2) by simp
  have lo: "0 \<le> x / of_int d" using assms(1) d1 by simp
  have "div64 (Fin x) (Fin (of_int d)) = binary64 (x / of_int d)"
    using assms(3) by (simp add: div64_def)
  with binary64_bounds [OF lo hi] show ?thesis by simp
qed

text \<open>
  With an integer item height and overscan, and sizes up to \<open>2 ^ 26\<close>, the rounded indices
  are integers.
\<close>

lemma startIndex64_int:
  assumes "itemHeight s = Fin (of_int hi)" and "0 < hi"
    and "overscan s = Fin (of_int oi)" and "0 \<le> oi" and "oi \<le> 2 ^ 26"
    and "scrollTop s = Fin t" and "0 \<le> t" and "t \<le> 2 ^ 26"
  shows "\<exists>a. startIndex64 s = Fin (of_int a) \<and> 0 \<le> a \<and> a \<le> 2 ^ 26"
proof -
  obtain q where q: "div64 (Fin t) (Fin (of_int hi)) = Fin q" and q0: "0 \<le> q" and q1: "q \<le> 2 ^ 26"
    using div64_bounds [OF assms(7,8,2)] by blast
  define f where "f = \<lfloor>q\<rfloor>"
  have f0: "0 \<le> f" using q0 by (simp add: f_def)
  have "q \<le> of_int (2 ^ 26)" using q1 by simp
  then have f1: "f \<le> 2 ^ 26" unfolding f_def by (simp only: floor_le_iff)
  have "\<bar>f - oi\<bar> \<le> 2 ^ 52" using f0 f1 assms(4,5) by simp
  then have sub: "sub64 (Fin (of_int f)) (Fin (of_int oi)) = Fin (of_int (f - oi))"
    by (rule sub64_int)
  have "startIndex64 s = Math_max (Fin 0) (Fin (of_int (f - oi)))"
    by (simp add: startIndex64_def assms(1,3,6) q f_def [symmetric] sub)
  also have "\<dots> = Fin (of_int (max 0 (f - oi)))"
    by (simp add: max_def)
  finally have "startIndex64 s = Fin (of_int (max 0 (f - oi)))" .
  moreover have "0 \<le> max 0 (f - oi)" by simp
  moreover have "max 0 (f - oi) \<le> 2 ^ 26" using f1 assms(4) by simp
  ultimately show ?thesis by blast
qed

lemma visibleCount64_int:
  assumes "itemHeight s = Fin (of_int hi)" and "0 < hi"
    and "containerHeight s = Fin c" and "0 \<le> c" and "c \<le> 2 ^ 26"
  shows "\<exists>v. visibleCount64 s = Fin (of_int v) \<and> 0 \<le> v \<and> v \<le> 2 ^ 26"
proof -
  obtain q where q: "div64 (Fin c) (Fin (of_int hi)) = Fin q" and q0: "0 \<le> q" and q1: "q \<le> 2 ^ 26"
    using div64_bounds [OF assms(4,5,2)] by blast
  have v0: "0 \<le> \<lceil>q\<rceil>" using q0 by (simp add: le_ceiling_iff) 
  have "q \<le> of_int (2 ^ 26)" using q1 by simp
  then have v1: "\<lceil>q\<rceil> \<le> 2 ^ 26" by (simp only: ceiling_le_iff)
  have "visibleCount64 s = Fin (of_int \<lceil>q\<rceil>)"
    by (simp add: visibleCount64_def assms(1,3) q)
  with v0 v1 show ?thesis by blast
qed

lemma endIndex64_int:
  assumes "itemHeight s = Fin (of_int hi)" and "0 < hi"
    and "overscan s = Fin (of_int oi)" and "0 \<le> oi" and "oi \<le> 2 ^ 26"
    and "scrollTop s = Fin t" and "0 \<le> t" and "t \<le> 2 ^ 26"
    and "containerHeight s = Fin c" and "0 \<le> c" and "c \<le> 2 ^ 26"
  shows "\<exists>b. endIndex64 s = Fin (of_int b) \<and> 0 \<le> b \<and> b \<le> int (length (items s))"
proof -
  obtain a where a: "startIndex64 s = Fin (of_int a)" and a0: "0 \<le> a" and a1: "a \<le> 2 ^ 26"
    using startIndex64_int [OF assms(1-8)] by blast
  obtain v where v: "visibleCount64 s = Fin (of_int v)" and v0: "0 \<le> v" and v1: "v \<le> 2 ^ 26"
    using visibleCount64_int [OF assms(1,2,9,10,11)] by blast
  have "\<bar>a + v\<bar> \<le> 2 ^ 52" using a0 a1 v0 v1 by simp
  then have av: "add64 (Fin (of_int a)) (Fin (of_int v)) = Fin (of_int (a + v))"
    by (rule add64_int)
  have "\<bar>oi * 2\<bar> \<le> 2 ^ 52" using assms(4,5) by simp
  then have "mul64 (Fin (of_int oi)) (Fin (of_int 2)) = Fin (of_int (oi * 2))"
    by (rule mul64_int)
  then have o2: "mul64 (Fin (of_int oi)) (Fin 2) = Fin (of_int (oi * 2))" by simp
  have "\<bar>(a + v) + oi * 2\<bar> \<le> 2 ^ 52" using a0 a1 v0 v1 assms(4,5) by simp
  then have sum: "add64 (Fin (of_int (a + v))) (Fin (of_int (oi * 2))) = Fin (of_int ((a + v) + oi * 2))"
    by (rule add64_int)
  define n where "n = int (length (items s))"
  have n: "Fin (real (length (items s))) = Fin (of_int n)" by (simp add: n_def)
  have "endIndex64 s = Math_min (Fin (of_int n)) (Fin (of_int ((a + v) + oi * 2)))"
    unfolding endIndex64_def a v assms(3) av o2 sum n ..
  also have "\<dots> = Fin (of_int (min n ((a + v) + oi * 2)))"
    by (simp add: min_def)
  finally have "endIndex64 s = Fin (of_int (min n ((a + v) + oi * 2)))" .
  moreover have "0 \<le> min n ((a + v) + oi * 2)" using a0 v0 assms(4) by (simp add: n_def)
  moreover have "min n ((a + v) + oi * 2) \<le> int (length (items s))" by (simp add: n_def)
  ultimately show ?thesis by blast
qed

text \<open>The roundings met with ten items of height \<open>33.3\<close>.\<close>

lemma binary64_zero [simp]: "binary64 0 = Fin 0"
  by (simp add: binary64_def)

lemma binary64_literal: "binary64 (333 / 10) = Fin (2343279181116211 / 70368744177664)"
  by (subst binary64_eval [where e = 5]) (simp_all add: power_int_minus rne_def Let_def)

lemma binary64_quotient: "binary64 (30 / (2343279181116211 / 70368744177664))
    = Fin (2028648480797521 / 2251799813685248)"
  by (subst binary64_eval [where e = "- 1"]) (simp_all add: power_int_minus rne_def Let_def)

lemma binary64_three_heights: "binary64 (3 * (2343279181116211 / 70368744177664))
    = Fin (7029837543348633 / 70368744177664)"
  by (subst binary64_eval [where e = 6]) (simp_all add: power_int_minus rne_def Let_def)

lemma binary64_seven_heights: "binary64 (7 * (2343279181116211 / 70368744177664))
    = Fin (4100738566953369 / 17592186044416)"
  by (subst binary64_eval [where e = 7]) (simp_all add: power_int_minus rne_def Let_def)

lemma binary64_fixed: "binary64 (7029837543348633 / 70368744177664)
    = Fin (7029837543348633 / 70368744177664)"
  by (subst binary64_eval [where e = 6]) (simp_all add: power_int_minus rne_def Let_def)

lemma binary64_sum: "binary64 (7029837543348633 / 70368744177664 + 4100738566953369 / 17592186044416)
    = Fin (5858197952790527 / 17592186044416)"
  by (subst binary64_eval [where e = 8]) (simp_all add: power_int_minus rne_def Let_def)

lemma binary64_ten_heights: "binary64 (10 * (2343279181116211 / 70368744177664)) = Fin 333"
  by (subst binary64_eval [where e = 8]) (simp_all add: power_int_minus rne_def Let_def)

lemma binary64_small_ints:
  "binary64 1 = Fin 1" "binary64 2 = Fin 2" "binary64 3 = Fin 3" "binary64 7 = Fin 7"
  "binary64 (- 1) = Fin (- 1)"
  using binary64_of_int [of 1] binary64_of_int [of 2] binary64_of_int [of 3]
    binary64_of_int [of 7] binary64_of_int [of "- 1"]
  by simp_all

section \<open>The bounds of the window\<close>




text \<open>
  C10. For a positive finite item height, a finite overscan and viewport size, both at
  least 0, and a finite scroll offset, the end index lies between 0 and the item count, so
  the bottom padding \<open>(itemCount - endIndex) * itemHeight\<close> is at least 0. When the start
  index is at or beyond the item count, as it is for a scroll offset of at least
  \<open>(itemCount + overscan + 1) * itemHeight\<close>, the visible slice is the empty list.
\<close>

theorem endIndex_in_range:
  assumes "itemHeight s = Fin h" and "0 < h" and "overscan s = Fin ov" and "0 \<le> ov"
    and "scrollTop s = Fin t" and "containerHeight s = Fin c" and "0 \<le> c"
  shows "num_le (Fin 0) (endIndex s)
    \<and> num_le (endIndex s) (Fin (real (length (items s))))
    \<and> paddingBottom s
        = num_mul (num_sub (Fin (real (length (items s)))) (endIndex s)) (itemHeight s)
    \<and> num_le (Fin 0) (paddingBottom s)
    \<and> (num_le (Fin (real (length (items s)))) (startIndex s) \<longrightarrow> visibleItems s = [])
    \<and> ((real (length (items s)) + ov + 1) * h \<le> t \<longrightarrow> visibleItems s = [])"
proof -
  have h0: "h \<noteq> 0" using assms(2) by simp
  define a where "a = max 0 (of_int \<lfloor>t / h\<rfloor> - ov)"
  define b where "b = min (real (length (items s))) (a + of_int \<lceil>c / h\<rceil> + ov * 2)"
  have st: "startIndex s = Fin a"
    unfolding a_def by (rule startIndex_Fin [OF assms(1) h0 assms(5) assms(3)])
  have en: "endIndex s = Fin b"
    unfolding a_def b_def by (rule endIndex_Fin [OF assms(1) h0 assms(5) assms(3) assms(6)])
  have "0 \<le> c / h" using assms(2,7) by simp
  then have vc: "0 \<le> (of_int \<lceil>c / h\<rceil> :: real)"
    by (simp add: ceiling_le_iff [symmetric] le_ceiling_iff)
  have a0: "0 \<le> a" unfolding a_def by simp
  have b0: "0 \<le> b" unfolding b_def using a0 vc assms(4) by simp
  have bn: "b \<le> real (length (items s))" unfolding b_def by simp
  have 1: "num_le (Fin 0) (endIndex s)" using b0 by (simp add: en)
  have 2: "num_le (endIndex s) (Fin (real (length (items s))))" using bn by (simp add: en)
  have pb: "paddingBottom s = Fin ((real (length (items s)) - b) * h)"
    by (simp add: paddingBottom_def en assms(1) num_sub_def)
  have "0 \<le> (real (length (items s)) - b) * h"
    using bn assms(2) by simp
  then have 3: "num_le (Fin 0) (paddingBottom s)" by (simp only: pb num_le.simps)
  have 4: "visibleItems s = []" if "num_le (Fin (real (length (items s)))) (startIndex s)"
  proof -
    from that have "real (length (items s)) \<le> a" by (simp add: st)
    then show ?thesis by (simp add: visibleItems_def st slice_past_end)
  qed
  have 5: "visibleItems s = []" if far: "(real (length (items s)) + ov + 1) * h \<le> t"
  proof -
    have "real (length (items s)) + ov + 1 \<le> t / h"
      using far assms(2) by (simp add: pos_le_divide_eq)
    moreover have "t / h < of_int \<lfloor>t / h\<rfloor> + 1" by linarith
    ultimately have "real (length (items s)) \<le> of_int \<lfloor>t / h\<rfloor> - ov" by linarith
    then have "real (length (items s)) \<le> a" unfolding a_def by simp
    then show ?thesis by (simp add: visibleItems_def st slice_past_end)
  qed
  have 6: "paddingBottom s
        = num_mul (num_sub (Fin (real (length (items s)))) (endIndex s)) (itemHeight s)"
    by (simp add: paddingBottom_def)
  from 1 2 3 4 5 6 show ?thesis by blast
qed

theorem endIndex_in_range_witness:
  "endIndex (viewing [0..<5] 20 1 400 200) = Fin 5
   \<and> num_le (endIndex (viewing [0..<5] 20 1 400 200)) (Fin 5)
   \<and> paddingBottom (viewing [0..<5] 20 1 400 200) = Fin 0
   \<and> num_le (Fin 5) (startIndex (viewing [0..<5] 20 1 400 200))
   \<and> (5 + 1 + 1) * 20 \<le> (400 :: real)
   \<and> visibleItems (viewing [0..<5] 20 1 400 200) = []"
  using endIndex_in_range [of "viewing [0..<5] 20 1 400 200" 20 1 400 200]
  by (simp add: endIndex_def startIndex_def visibleCount_def paddingBottom_def num_sub_def)

section \<open>The empty list\<close>




section \<open>The total height\<close>

text \<open>
  Ten items of height \<open>33.3\<close>, an overscan of 1, scroll offset 0 and a viewport of 30 give
  the window 0 to 3. The top padding is 0, three heights are 99.89999999999999 and seven
  heights 233.09999999999997, which add up to 332.99999999999994, while ten heights are
  333: the sum of C4 is not the total height.
\<close>

theorem total_space_counterexample:
  "binary64 (333 / 10) = Fin (2343279181116211 / 70368744177664)
   \<and> startIndex64 (viewing [0..<10] (2343279181116211 / 70368744177664) 1 0 30) = Fin 0
   \<and> endIndex64 (viewing [0..<10] (2343279181116211 / 70368744177664) 1 0 30) = Fin 3
   \<and> add64 (add64 (paddingTop64 (viewing [0..<10] (2343279181116211 / 70368744177664) 1 0 30))
         (mul64 (sub64 (endIndex64 (viewing [0..<10] (2343279181116211 / 70368744177664) 1 0 30))
                       (startIndex64 (viewing [0..<10] (2343279181116211 / 70368744177664) 1 0 30)))
                (itemHeight (viewing [0..<10] (2343279181116211 / 70368744177664) 1 0 30))))
       (paddingBottom64 (viewing [0..<10] (2343279181116211 / 70368744177664) 1 0 30))
     = Fin (5858197952790527 / 17592186044416)
   \<and> mul64 (Fin (real (length (items (viewing [0..<10] (2343279181116211 / 70368744177664) 1 0 30)))))
         (itemHeight (viewing [0..<10] (2343279181116211 / 70368744177664) 1 0 30))
     = Fin 333
   \<and> Fin (5858197952790527 / 17592186044416) \<noteq> Fin 333"
proof -
  define H :: real where "H = 2343279181116211 / 70368744177664"
  define S :: "nat scroller" where "S = viewing [0..<10] H 1 0 30"
  have fields: "itemHeight S = Fin H" "overscan S = Fin 1" "scrollTop S = Fin 0"
    "containerHeight S = Fin 30" "Fin (real (length (items S))) = Fin 10"
    by (simp_all add: S_def)
  have H0: "H \<noteq> 0" by (simp add: H_def)
  have st: "startIndex64 S = Fin 0"
    using H0 by (simp add: startIndex64_def fields div64_def sub64_def num_sub_def binary64_small_ints)
  have "div64 (Fin 30) (Fin H) = Fin (2028648480797521 / 2251799813685248)"
    using H0 binary64_quotient by (simp add: div64_def H_def)
  then have vc: "visibleCount64 S = Fin 1"
    by (simp add: visibleCount64_def fields)
  have en: "endIndex64 S = Fin 3"
    by (simp add: endIndex64_def st vc fields add64_def mul64_def binary64_small_ints)
  have pt: "paddingTop64 S = Fin 0"
    by (simp add: paddingTop64_def st fields mul64_def)
  have d1: "sub64 (Fin 3) (Fin 0) = Fin 3"
    by (simp add: sub64_def num_sub_def binary64_small_ints)
  have mid: "mul64 (Fin 3) (Fin H) = Fin (7029837543348633 / 70368744177664)"
    unfolding mul64_def num_mul.simps round64.simps H_def by (rule binary64_three_heights)
  have d2: "sub64 (Fin 10) (Fin 3) = Fin 7"
    by (simp add: sub64_def num_sub_def binary64_small_ints)
  have "mul64 (Fin 7) (Fin H) = Fin (4100738566953369 / 17592186044416)"
    unfolding mul64_def num_mul.simps round64.simps H_def by (rule binary64_seven_heights)
  then have pb: "paddingBottom64 S = Fin (4100738566953369 / 17592186044416)"
    by (simp only: paddingBottom64_def fields en d2)
  have a1: "add64 (Fin 0) (Fin (7029837543348633 / 70368744177664))
      = Fin (7029837543348633 / 70368744177664)"
    using binary64_fixed by (simp add: add64_def)
  have a2: "add64 (Fin (7029837543348633 / 70368744177664)) (Fin (4100738566953369 / 17592186044416))
      = Fin (5858197952790527 / 17592186044416)"
    unfolding add64_def num_add.simps round64.simps by (rule binary64_sum)
  have lhs: "add64 (add64 (paddingTop64 S)
         (mul64 (sub64 (endIndex64 S) (startIndex64 S)) (itemHeight S))) (paddingBottom64 S)
     = Fin (5858197952790527 / 17592186044416)"
    by (simp only: pt pb st en fields d1 mid a1 a2)
  have rhs: "mul64 (Fin (real (length (items S)))) (itemHeight S) = Fin 333"
    unfolding fields mul64_def num_mul.simps round64.simps H_def by (rule binary64_ten_heights)
  have ne: "Fin (5858197952790527 / 17592186044416) \<noteq> Fin 333" by simp
  from binary64_literal st en lhs rhs ne show ?thesis unfolding S_def H_def by blast
qed

text \<open>
  C4, as the code has it. When the item height and the overscan are integers, with
  \<open>0 < itemHeight <= 2 ^ 26\<close> and \<open>0 <= overscan <= 2 ^ 26\<close>, the scroll offset and the
  viewport size lie between 0 and \<open>2 ^ 26\<close>, and \<open>itemCount * itemHeight <= 2 ^ 52\<close>, then
  \<open>paddingTop + (endIndex - startIndex) * itemHeight + paddingBottom\<close>, each operator
  rounded to binary64, is \<open>itemCount * itemHeight\<close>, itself not rounded.
\<close>

theorem total_space_binary64:
  assumes "itemHeight s = Fin (of_int hi)" and "0 < hi" and "hi \<le> 2 ^ 26"
    and "overscan s = Fin (of_int oi)" and "0 \<le> oi" and "oi \<le> 2 ^ 26"
    and "scrollTop s = Fin t" and "0 \<le> t" and "t \<le> 2 ^ 26"
    and "containerHeight s = Fin c" and "0 \<le> c" and "c \<le> 2 ^ 26"
    and "int (length (items s)) * hi \<le> 2 ^ 52"
  shows "add64 (add64 (paddingTop64 s)
             (mul64 (sub64 (endIndex64 s) (startIndex64 s)) (itemHeight s)))
           (paddingBottom64 s)
         = mul64 (Fin (real (length (items s)))) (itemHeight s)
    \<and> mul64 (Fin (real (length (items s)))) (itemHeight s)
         = Fin (real (length (items s)) * of_int hi)"
proof -
  define n where "n = int (length (items s))"
  have n: "Fin (real (length (items s))) = Fin (of_int n)" by (simp add: n_def)
  have n0: "0 \<le> n" by (simp add: n_def)
  have nh: "n * hi \<le> 2 ^ 52" using assms(13) by (simp add: n_def)
  have nn: "n \<le> n * hi" using n0 assms(2) by (simp add: mult_le_cancel_left1)
  obtain a where a: "startIndex64 s = Fin (of_int a)" and a0: "0 \<le> a" and a1: "a \<le> 2 ^ 26"
    using startIndex64_int [OF assms(1,2,4-9)] by blast
  obtain b where b: "endIndex64 s = Fin (of_int b)" and b0: "0 \<le> b" and b1: "b \<le> n"
    using endIndex64_int [OF assms(1,2,4-12)] unfolding n_def by blast
  have "a * hi \<le> 2 ^ 26 * 2 ^ 26"
    using a0 a1 assms(2,3) by (intro mult_mono) simp_all
  then have ah: "a * hi \<le> 2 ^ 52" by simp
  have ah0: "0 \<le> a * hi" using a0 assms(2) by simp
  have bh: "b * hi \<le> n * hi" using b1 assms(2) by (simp add: mult_right_mono)
  have bh0: "0 \<le> b * hi" using b0 assms(2) by simp
  have pt: "paddingTop64 s = Fin (of_int (a * hi))"
    unfolding paddingTop64_def a assms(1) by (rule mul64_int) (use ah ah0 in simp)
  have "\<bar>b - a\<bar> \<le> 2 ^ 52" using a0 a1 b0 b1 nn nh by simp
  then have ba: "sub64 (Fin (of_int b)) (Fin (of_int a)) = Fin (of_int (b - a))"
    by (rule sub64_int)
  have "(b - a) * hi = b * hi - a * hi" by (simp add: algebra_simps)
  then have "\<bar>(b - a) * hi\<bar> \<le> 2 ^ 52" using ah ah0 bh bh0 nh by simp
  then have mid: "mul64 (Fin (of_int (b - a))) (Fin (of_int hi)) = Fin (of_int ((b - a) * hi))"
    by (rule mul64_int)
  have "\<bar>n - b\<bar> \<le> 2 ^ 52" using b0 b1 nn nh by simp
  then have nb: "sub64 (Fin (of_int n)) (Fin (of_int b)) = Fin (of_int (n - b))"
    by (rule sub64_int)
  have nbh: "(n - b) * hi = n * hi - b * hi" by (simp add: algebra_simps)
  then have "\<bar>(n - b) * hi\<bar> \<le> 2 ^ 52" using bh bh0 nh by simp
  then have "mul64 (Fin (of_int (n - b))) (Fin (of_int hi)) = Fin (of_int ((n - b) * hi))"
    by (rule mul64_int)
  then have pb: "paddingBottom64 s = Fin (of_int ((n - b) * hi))"
    unfolding paddingBottom64_def b assms(1) n nb .
  have s1: "a * hi + (b - a) * hi = b * hi" by (simp add: algebra_simps)
  have "\<bar>a * hi + (b - a) * hi\<bar> \<le> 2 ^ 52" unfolding s1 using bh bh0 nh by simp
  then have "add64 (Fin (of_int (a * hi))) (Fin (of_int ((b - a) * hi)))
      = Fin (of_int (a * hi + (b - a) * hi))"
    by (rule add64_int)
  then have first: "add64 (Fin (of_int (a * hi))) (Fin (of_int ((b - a) * hi))) = Fin (of_int (b * hi))"
    by (simp only: s1)
  have s2: "b * hi + (n - b) * hi = n * hi" by (simp add: algebra_simps)
  have nh0: "0 \<le> n * hi" using n0 assms(2) by simp
  have "\<bar>b * hi + (n - b) * hi\<bar> \<le> 2 ^ 52" unfolding s2 using nh nh0 by simp
  then have "add64 (Fin (of_int (b * hi))) (Fin (of_int ((n - b) * hi)))
      = Fin (of_int (b * hi + (n - b) * hi))"
    by (rule add64_int)
  then have second: "add64 (Fin (of_int (b * hi))) (Fin (of_int ((n - b) * hi))) = Fin (of_int (n * hi))"
    by (simp only: s2)
  have "\<bar>n * hi\<bar> \<le> 2 ^ 52" using nh nh0 by simp
  then have total: "mul64 (Fin (of_int n)) (Fin (of_int hi)) = Fin (of_int (n * hi))"
    by (rule mul64_int)
  have lhs: "add64 (add64 (paddingTop64 s)
             (mul64 (sub64 (endIndex64 s) (startIndex64 s)) (itemHeight s)))
           (paddingBottom64 s) = Fin (of_int (n * hi))"
    unfolding pt pb a b assms(1) ba mid first second ..
  have rhs: "mul64 (Fin (real (length (items s)))) (itemHeight s) = Fin (of_int (n * hi))"
    unfolding n assms(1) total ..
  have "Fin (of_int (n * hi)) = Fin (real (length (items s)) * of_int hi)"
    by (simp add: n_def)
  with lhs rhs show ?thesis by simp
qed

theorem total_space_binary64_witness:
  "add64 (add64 (paddingTop64 (viewing [0..<100] 20 1 400 200))
         (mul64 (sub64 (endIndex64 (viewing [0..<100] 20 1 400 200))
                       (startIndex64 (viewing [0..<100] 20 1 400 200))) (Fin 20)))
       (paddingBottom64 (viewing [0..<100] 20 1 400 200))
     = Fin 2000
   \<and> mul64 (Fin 100) (Fin 20) = Fin 2000"
  using total_space_binary64 [of "viewing [0..<100] 20 1 400 200" 20 1 400 200]
  by simp

section \<open>The worked scenarios\<close>

text \<open>
  C5. On the three worked scenarios the engine returns the listed values: with 100 items
  of height 20, a viewport of 200 and an overscan of 1, at scroll offset 0 the visible
  count is 10, the window is 0 to 12 and the paddings are 0 and 1760; at scroll offset 400
  the window is 19 to 31 and the paddings are 380 and 1380; with 5 items of height 20, a
  viewport of 500, an overscan of 2 and scroll offset 0 the end index is 5 and the bottom
  padding is 0.
\<close>

theorem scenarios:
  "visibleCount (viewing [0..<100] 20 1 0 200) = Fin 10
   \<and> startIndex (viewing [0..<100] 20 1 0 200) = Fin 0
   \<and> endIndex (viewing [0..<100] 20 1 0 200) = Fin 12
   \<and> paddingTop (viewing [0..<100] 20 1 0 200) = Fin 0
   \<and> paddingBottom (viewing [0..<100] 20 1 0 200) = Fin 1760
   \<and> startIndex (viewing [0..<100] 20 1 400 200) = Fin 19
   \<and> endIndex (viewing [0..<100] 20 1 400 200) = Fin 31
   \<and> paddingTop (viewing [0..<100] 20 1 400 200) = Fin 380
   \<and> paddingBottom (viewing [0..<100] 20 1 400 200) = Fin 1380
   \<and> endIndex (viewing [0..<5] 20 2 0 500) = Fin 5
   \<and> paddingBottom (viewing [0..<5] 20 2 0 500) = Fin 0"
  by (simp add: viewing_def visibleCount_def startIndex_def endIndex_def paddingTop_def
      paddingBottom_def num_sub_def)

section \<open>The start index\<close>

text \<open>
  C6. With a positive finite item height and a finite overscan, and everything but the
  scroll offset held fixed, a scroll offset that is not smaller gives a start index that is
  not smaller.
\<close>

theorem startIndex_mono:
  assumes "itemHeight s = Fin h" and "0 < h" and "overscan s = Fin ov" and "t1 \<le> t2"
  shows "num_le (startIndex (s\<lparr>scrollTop := Fin t1\<rparr>)) (startIndex (s\<lparr>scrollTop := Fin t2\<rparr>))"
proof -
  have h0: "h \<noteq> 0" using assms(2) by simp
  have "t1 / h \<le> t2 / h" using assms(2,4) by (simp add: divide_right_mono)
  then have "\<lfloor>t1 / h\<rfloor> \<le> \<lfloor>t2 / h\<rfloor>" by (rule floor_mono)
  then have "(of_int \<lfloor>t1 / h\<rfloor> :: real) \<le> of_int \<lfloor>t2 / h\<rfloor>" by simp
  then have "max 0 (of_int \<lfloor>t1 / h\<rfloor> - ov) \<le> max 0 (of_int \<lfloor>t2 / h\<rfloor> - ov)"
    by linarith
  moreover have "startIndex (s\<lparr>scrollTop := Fin t1\<rparr>) = Fin (max 0 (of_int \<lfloor>t1 / h\<rfloor> - ov))"
    by (rule startIndex_Fin [OF _ h0]) (simp_all add: assms)
  moreover have "startIndex (s\<lparr>scrollTop := Fin t2\<rparr>) = Fin (max 0 (of_int \<lfloor>t2 / h\<rfloor> - ov))"
    by (rule startIndex_Fin [OF _ h0]) (simp_all add: assms)
  ultimately show ?thesis by simp
qed

theorem startIndex_mono_witness:
  "num_le (startIndex ((viewing [0..<100] 20 1 0 200)\<lparr>scrollTop := Fin 390\<rparr>))
          (startIndex ((viewing [0..<100] 20 1 0 200)\<lparr>scrollTop := Fin 400\<rparr>))
   \<and> startIndex ((viewing [0..<100] 20 1 0 200)\<lparr>scrollTop := Fin 390\<rparr>) = Fin 18
   \<and> startIndex ((viewing [0..<100] 20 1 0 200)\<lparr>scrollTop := Fin 400\<rparr>) = Fin 19"
  using startIndex_mono [of "viewing [0..<100] 20 1 0 200" 20 1 390 400]
  by (simp add: startIndex_def num_sub_def)

text \<open>
  C8. At scroll offset 0 the start index is 0, for every positive finite item height and
  every finite overscan of at least 0, whatever the items and the viewport size.
\<close>

theorem startIndex_at_top:
  assumes "itemHeight s = Fin h" and "0 < h" and "overscan s = Fin ov" and "0 \<le> ov"
    and "scrollTop s = Fin 0"
  shows "startIndex s = Fin 0"
  using assms by (simp add: startIndex_def num_sub_def)

theorem startIndex_at_top_witness:
  "startIndex (viewing [0..<100] 20 7 0 200) = Fin 0"
  using startIndex_at_top [of "viewing [0..<100] 20 7 0 200" 20 7]
  by simp

text \<open>
  C9. The start index does not depend on the viewport size: two states with the same item
  height, overscan and scroll offset have the same start index, and changing the viewport
  size of a state leaves its start index as it is. With a positive finite item height and
  viewport size 0 the visible count is 0, and the start index is still
  \<open>max(0, floor(scrollOffset / itemHeight) - overscan)\<close>.
\<close>

theorem startIndex_ignores_viewport:
  "(itemHeight sa = itemHeight sb \<longrightarrow> overscan sa = overscan sb \<longrightarrow> scrollTop sa = scrollTop sb
      \<longrightarrow> startIndex sa = startIndex sb)
   \<and> startIndex (s\<lparr>containerHeight := c'\<rparr>) = startIndex s
   \<and> (itemHeight s = Fin h \<longrightarrow> 0 < h \<longrightarrow> containerHeight s = Fin 0 \<longrightarrow>
        visibleCount s = Fin 0
        \<and> (scrollTop s = Fin t \<longrightarrow> overscan s = Fin ov \<longrightarrow>
             startIndex s = Fin (max 0 (of_int \<lfloor>t / h\<rfloor> - ov))))"
  by (simp add: startIndex_def visibleCount_def num_sub_def max_def)

theorem startIndex_ignores_viewport_witness:
  "startIndex (viewing [0..<100] 20 1 400 0) = startIndex (viewing [0..<100] 20 1 400 200)
   \<and> visibleCount (viewing [0..<100] 20 1 400 0) = Fin 0
   \<and> startIndex (viewing [0..<100] 20 1 400 0) = Fin 19"
  using startIndex_ignores_viewport [where sa = "viewing [0..<100] 20 1 400 0"
      and sb = "viewing [0..<100] 20 1 400 200" and s = "viewing [0..<100] 20 1 400 0"
      and c' = "Fin 200" and h = 20 and t = 400 and ov = 1]
  by (simp add: startIndex_def visibleCount_def num_sub_def)

section \<open>Construction\<close>

text \<open>
  Construction validates nothing: with item height 0 it returns an instance whose visible
  count is NaN (zero over zero), and with item height -20, 100 items and overscan 1 an
  instance whose bottom padding is -1960. C2 asks for a rejection of both.
\<close>

theorem construction_counterexample:
  "useVirtualScroller [0..<100] None (Fin 0) (Some (Fin 1)) \<noteq> None
   \<and> map_option visibleCount (useVirtualScroller [0..<100] None (Fin 0) (Some (Fin 1))) = Some NaN
   \<and> useVirtualScroller [0..<100] None (Fin (- 20)) (Some (Fin 1)) \<noteq> None
   \<and> map_option paddingBottom (useVirtualScroller [0..<100] None (Fin (- 20)) (Some (Fin 1)))
       = Some (Fin (- 1960))"
  by (simp add: useVirtualScroller_def visibleCount_def paddingBottom_def endIndex_def
      startIndex_def num_sub_def)

text \<open>
  C2, as the code has it. Construction returns an instance for every configuration, with
  the options as given (an absent overscan is 2) and both refs at 0; no item height is
  rejected. With item height 0 the visible count, both indices and both paddings of the
  fresh instance are NaN and the visible slice is empty; with a negative finite item
  height and a finite overscan of at least 0 its bottom padding is
  \<open>(itemCount - min(itemCount, 2 * overscan)) * itemHeight\<close>, which is at most 0.
\<close>

theorem construction_accepts:
  "case useVirtualScroller its cref h ov of
     None \<Rightarrow> False
   | Some s \<Rightarrow>
       items s = its \<and> containerRef s = cref \<and> itemHeight s = h
       \<and> overscan s = (case ov of None \<Rightarrow> Fin 2 | Some v \<Rightarrow> v)
       \<and> scrollTop s = Fin 0 \<and> containerHeight s = Fin 0
       \<and> (h = Fin 0 \<longrightarrow>
            visibleCount s = NaN \<and> startIndex s = NaN \<and> endIndex s = NaN
            \<and> paddingTop s = NaN \<and> paddingBottom s = NaN \<and> visibleItems s = [])
       \<and> (h = Fin x \<longrightarrow> x < 0 \<longrightarrow> overscan s = Fin v' \<longrightarrow> 0 \<le> v' \<longrightarrow>
            paddingBottom s
              = Fin ((real (length its) - min (real (length its)) (v' * 2)) * x)
            \<and> num_le (paddingBottom s) (Fin 0))"
proof -
  define s where "s = \<lparr>items = its, containerRef = cref, itemHeight = h,
           overscan = (case ov of None \<Rightarrow> Fin 2 | Some v \<Rightarrow> v),
           scrollTop = Fin 0, containerHeight = Fin 0\<rparr>"
  have made: "useVirtualScroller its cref h ov = Some s"
    by (simp add: useVirtualScroller_def s_def)
  have fields: "items s = its" "containerRef s = cref" "itemHeight s = h"
    "overscan s = (case ov of None \<Rightarrow> Fin 2 | Some v \<Rightarrow> v)"
    "scrollTop s = Fin 0" "containerHeight s = Fin 0"
    by (simp_all add: s_def)
  have zero: "visibleCount s = NaN \<and> startIndex s = NaN \<and> endIndex s = NaN
            \<and> paddingTop s = NaN \<and> paddingBottom s = NaN \<and> visibleItems s = []"
    if "h = Fin 0"
    using fresh_zero_height [of s] that fields(3,5,6) by simp
  have neg: "paddingBottom s = Fin ((real (length its) - min (real (length its)) (v' * 2)) * x)
            \<and> num_le (paddingBottom s) (Fin 0)"
    if "h = Fin x" and "x < 0" and "overscan s = Fin v'" and "0 \<le> v'"
  proof -
    have "itemHeight s = Fin x" using that(1) fields(3) by simp
    from fresh_negative_height [OF this that(2,3,4) fields(5,6)]
    show ?thesis unfolding fields(1) .
  qed
  show ?thesis
    unfolding made option.case
    using fields zero neg by blast
qed

theorem construction_accepts_witness:
  "map_option startIndex (useVirtualScroller ([] :: nat list) None (Fin 0) None) = Some NaN
   \<and> map_option paddingTop (useVirtualScroller ([] :: nat list) None (Fin 0) None) = Some NaN
   \<and> map_option paddingBottom (useVirtualScroller [0..<10] None (Fin (- 30)) None)
       = Some (Fin (- 180))"
  using construction_accepts [of "[] :: nat list" None "Fin 0" None 0 0]
    construction_accepts [of "[0..<10]" None "Fin (- 30)" None "- 30" 2]
  by (simp add: useVirtualScroller_def)

section \<open>\<open>scrollToIndex\<close>\<close>

text \<open>
  C7. With a surface attached and a finite item height, \<open>scrollToIndex\<close> of an integer
  index sets the surface's scroll offset to the index times the item height, whatever the
  index and the item count, and changes nothing else; with no surface attached it returns
  the state as it is.
\<close>

theorem scrollToIndex_offset:
  "(containerRef s = Some el \<longrightarrow> itemHeight s = Fin h \<longrightarrow>
      scrollToIndex (Fin (of_int i)) s
        = s\<lparr>containerRef := Some (el\<lparr>elem_scrollTop := Fin (of_int i * h)\<rparr>)\<rparr>)
   \<and> (containerRef s = None \<longrightarrow> scrollToIndex index s = s)"
  by (simp add: scrollToIndex_def)

theorem scrollToIndex_offset_witness:
  "scrollToIndex (Fin 10) (viewing [0..<100] 20 1 0 200)
     = (viewing [0..<100] 20 1 0 200)
         \<lparr>containerRef := Some \<lparr>elem_scrollTop = Fin 200, clientHeight = Fin 200\<rparr>\<rparr>
   \<and> scrollToIndex (Fin 500) (viewing [0..<100] 20 1 0 200)
     = (viewing [0..<100] 20 1 0 200)
         \<lparr>containerRef := Some \<lparr>elem_scrollTop = Fin 10000, clientHeight = Fin 200\<rparr>\<rparr>
   \<and> scrollToIndex (Fin 10)
       \<lparr>items = [0..<100], containerRef = None, itemHeight = Fin 20, overscan = Fin 1,
        scrollTop = Fin 0, containerHeight = Fin 0\<rparr>
     = \<lparr>items = [0..<100], containerRef = None, itemHeight = Fin 20, overscan = Fin 1,
        scrollTop = Fin 0, containerHeight = Fin 0\<rparr>"
  using scrollToIndex_offset [of "viewing [0..<100] 20 1 0 200"
      "\<lparr>elem_scrollTop = Fin 0, clientHeight = Fin 200\<rparr>" 20 10 "Fin 10"]
    scrollToIndex_offset [of "viewing [0..<100] 20 1 0 200"
      "\<lparr>elem_scrollTop = Fin 0, clientHeight = Fin 200\<rparr>" 20 500 "Fin 10"]
    scrollToIndex_offset [of "\<lparr>items = [0..<100], containerRef = None, itemHeight = Fin 20,
        overscan = Fin 1, scrollTop = Fin 0, containerHeight = Fin 0\<rparr>"
      "\<lparr>elem_scrollTop = Fin 0, clientHeight = Fin 200\<rparr>" 20 10 "Fin 10"]
  by simp

end
